theory Spec2Isabelle
  imports Main "HOL-Library.Word"
begin

section \<open>The SD card and the text that reaches it\<close>

text \<open>
  The three sketches of the repository keep their queue on an SD card through the Arduino
  \<^verbatim>\<open>SD\<close> library. A card is modelled as a partial map from file names to the bytes of
  the file. \<^verbatim>\<open>SD.open(name, FILE_WRITE)\<close> creates a missing file and writes at the end
  of an existing one; \<^verbatim>\<open>SD.open(name, FILE_READ)\<close> yields a false handle when the file is
  missing. On a mounted card no other input/output error is modelled; power loss between the
  card operations of a promotion is modelled separately below. The diagnostic file
  \<^verbatim>\<open>log.txt\<close> is written by \<^verbatim>\<open>escribirLog\<close> only, which touches no other file; it is
  left out of the card.
\<close>

type_synonym tarjeta = "string \<Rightarrow> string option"

abbreviation CR :: char where "CR \<equiv> CHR 0x0D"
abbreviation LF :: char where "LF \<equiv> CHR 0x0A"

definition contenido :: "tarjeta \<Rightarrow> string \<Rightarrow> string" where
  "contenido t f = (case t f of None \<Rightarrow> [] | Some bs \<Rightarrow> bs)"

definition anexar :: "string \<Rightarrow> string \<Rightarrow> tarjeta \<Rightarrow> tarjeta" where
  \<comment> \<open>open with \<^verbatim>\<open>FILE_WRITE\<close>, write the bytes, close\<close>
  "anexar f bs t = t(f \<mapsto> contenido t f @ bs)"

definition println :: "string \<Rightarrow> string" where
  \<comment> \<open>\<^verbatim>\<open>Print::println\<close> of the Arduino core writes the text, then CR and LF\<close>
  "println s = s @ [CR, LF]"

definition digito :: "nat \<Rightarrow> char" where
  "digito d = ''0123456789'' ! d"

fun decimal :: "nat \<Rightarrow> string" where
  \<comment> \<open>\<^verbatim>\<open>print\<close> of an unsigned number, base 10\<close>
  "decimal n = (if n < 10 then [digito n] else decimal (n div 10) @ [digito (n mod 10)])"

declare decimal.simps [simp del]

definition MAX_REINTENTOS :: int where "MAX_REINTENTOS = 3"
definition UMBRAL_BATERIA_BAJA :: int where "UMBRAL_BATERIA_BAJA = 25"
definition BUFFER_SIZE :: int where "BUFFER_SIZE = 120"
definition ARCHIVO_PENDIENTES :: string where "ARCHIVO_PENDIENTES = ''pendient.csv''"
definition ARCHIVO_ENVIADOS :: string where "ARCHIVO_ENVIADOS = ''enviado.csv''"
definition ARCHIVO_TEMP :: string where "ARCHIVO_TEMP = ''temp.tmp''"
definition CABECERA :: string where
  "CABECERA = ''ID;Timestamp;Temperatura;Conductividad;Bateria;Voltaje;Cobertura''"

text \<open>
  \<^verbatim>\<open>int\<close> has 16 bits on the ATmega328P. A line counter that is incremented past 32767
  is modelled as wrapping to -32768.
\<close>

definition incr16 :: "int \<Rightarrow> int" where
  "incr16 n = (if n = 32767 then - 32768 else n + 1)"

section \<open>Sketch "v2.0 optimizado": two logs, \<^verbatim>\<open>pendient.csv\<close> and \<^verbatim>\<open>enviado.csv\<close>\<close>

record medicion =
  temp :: string
  cond :: string
  bat :: string
  volt :: string
  cob :: string

record estado =
  sd :: tarjeta
  sdDisponible :: bool
  contadorMediciones :: "32 word"
  contador_bateria_baja :: int
  voltios :: int
  bufferLinea :: string

definition contarLineas :: "estado \<Rightarrow> string \<Rightarrow> int" where
  "contarLineas s nombreArchivo =
     (if \<not> sdDisponible s then 0
      else case sd s nombreArchivo of
             None \<Rightarrow> 0
           | Some bs \<Rightarrow> fold (\<lambda>c lineas. if c = LF then incr16 lineas else lineas) bs 0)"

fun leerLineaN_bucle :: "int \<Rightarrow> int \<Rightarrow> int \<Rightarrow> string \<Rightarrow> string \<Rightarrow> string option" where
  \<comment> \<open>arguments: numeroLinea, bufferSize, lineaActual, the buffer up to pos, the unread bytes\<close>
  "leerLineaN_bucle numeroLinea bufferSize lineaActual buf [] = None"
| "leerLineaN_bucle numeroLinea bufferSize lineaActual buf (c # cs) =
     (if lineaActual = numeroLinea then
        (if c = LF \<or> int (length buf) \<ge> bufferSize - 1 then Some buf
         else leerLineaN_bucle numeroLinea bufferSize lineaActual (buf @ [c]) cs)
      else if c = LF then
        (if lineaActual + 1 > numeroLinea then None
         else leerLineaN_bucle numeroLinea bufferSize (lineaActual + 1) buf cs)
      else leerLineaN_bucle numeroLinea bufferSize lineaActual buf cs)"

text \<open>
  \<^verbatim>\<open>leerLineaN\<close> fills a buffer of the caller, ends it with a zero byte and returns a
  flag. Every later use of the buffer (\<^verbatim>\<open>println\<close>, \<^verbatim>\<open>strtok\<close>) reads it as a
  C string, that is up to its first zero byte. The model returns \<open>Some\<close> of that C string
  when the source returns true and \<open>None\<close> when it returns false. A read that fails inside
  an unterminated last line has already stored the bytes of that line, without a zero byte
  after them; the C string the buffer then holds depends on older bytes of the array, which
  the model does not keep. The two callers that ignore the flag are therefore exact only
  where the read succeeds; where it fails the model goes on with \<open>bufferLinea\<close> as it
  was.
\<close>

definition cadena :: "string \<Rightarrow> string" where
  \<comment> \<open>the C string that starts at the first of the given bytes\<close>
  "cadena bs = takeWhile (\<lambda>c. c \<noteq> CHR 0x00) bs"

definition leerLineaN :: "estado \<Rightarrow> string \<Rightarrow> int \<Rightarrow> int \<Rightarrow> string option" where
  "leerLineaN s nombreArchivo numeroLinea bufferSize =
     (if \<not> sdDisponible s then None
      else case sd s nombreArchivo of
             None \<Rightarrow> None
           | Some bs \<Rightarrow> map_option cadena (leerLineaN_bucle numeroLinea bufferSize 0 [] bs))"

fun copiarSinPrimera :: "bool \<Rightarrow> string \<Rightarrow> string" where
  \<comment> \<open>the copy loop of \<^verbatim>\<open>eliminarPrimeraLinea\<close>; the flag is primeraLineaSaltada\<close>
  "copiarSinPrimera saltada [] = []"
| "copiarSinPrimera saltada (c # cs) =
     (if \<not> saltada then (if c = LF then copiarSinPrimera True cs else copiarSinPrimera False cs)
      else c # copiarSinPrimera True cs)"

definition eliminarPrimeraLinea :: "estado \<Rightarrow> string \<Rightarrow> bool \<times> estado" where
  "eliminarPrimeraLinea s nombreArchivo =
     (if \<not> sdDisponible s then (False, s)
      else case sd s nombreArchivo of
             None \<Rightarrow> (False, s)
           | Some bs \<Rightarrow>
               let t1 = anexar ARCHIVO_TEMP (copiarSinPrimera False bs) (sd s);
                   t2 = t1(nombreArchivo := None);
                   t3 = anexar nombreArchivo (contenido t2 ARCHIVO_TEMP) t2;
                   t4 = t3(ARCHIVO_TEMP := None)
               in (True, s\<lparr>sd := t4\<rparr>))"

definition lineaCSV :: "32 word \<Rightarrow> 32 word \<Rightarrow> medicion \<Rightarrow> string" where
  \<comment> \<open>what \<^verbatim>\<open>guardarMedicion\<close> prints before the end of line\<close>
  "lineaCSV ident ms m =
     decimal (unat ident) @ '';'' @ decimal (unat ms) @ '';'' @ temp m @ '';'' @ cond m @ '';''
       @ bat m @ '';'' @ volt m @ '';'' @ cob m"

definition guardarMedicion :: "32 word \<Rightarrow> medicion \<Rightarrow> estado \<Rightarrow> bool \<times> estado" where
  \<comment> \<open>the first argument is the value of \<^verbatim>\<open>millis()\<close>\<close>
  "guardarMedicion ms m s =
     (if \<not> sdDisponible s then (False, s)
      else (True, s\<lparr>sd := anexar ARCHIVO_PENDIENTES
                            (println (lineaCSV (contadorMediciones s) ms m)) (sd s)\<rparr>))"

definition marcarComoEnviado :: "estado \<Rightarrow> string \<Rightarrow> bool \<times> estado" where
  \<comment> \<open>\<open>linea\<close> is a C string (it holds no zero byte); opening \<^verbatim>\<open>enviado.csv\<close> with \<^verbatim>\<open>FILE_WRITE\<close> does not
      fail on a mounted card, so the early return for a false handle has no case here\<close>
  "marcarComoEnviado s linea =
     (if \<not> sdDisponible s then (False, s)
      else eliminarPrimeraLinea (s\<lparr>sd := anexar ARCHIVO_ENVIADOS (println linea) (sd s)\<rparr>)
             ARCHIVO_PENDIENTES)"

definition arranque :: "tarjeta \<Rightarrow> estado" where
  \<comment> \<open>the global variables as their initialisers leave them at power-on\<close>
  "arranque t = \<lparr>sd = t, sdDisponible = False, contadorMediciones = 0,
                 contador_bateria_baja = 0, voltios = 0, bufferLinea = []\<rparr>"

definition crearSiFalta :: "string \<Rightarrow> string \<Rightarrow> tarjeta \<Rightarrow> tarjeta" where
  "crearSiFalta f bs t = (if t f = None then anexar f bs t else t)"

definition setup_v2 :: "bool \<Rightarrow> estado \<Rightarrow> estado" where
  \<comment> \<open>the first argument is the result of \<^verbatim>\<open>SD.begin\<close>\<close>
  "setup_v2 sd_begin s =
     (if \<not> sd_begin then s\<lparr>sdDisponible := False\<rparr>
      else s\<lparr>sdDisponible := True,
              sd := crearSiFalta ARCHIVO_ENVIADOS (println CABECERA)
                      (crearSiFalta ARCHIVO_PENDIENTES (println CABECERA) (sd s))\<rparr>)"


subsection \<open>Draining: \<^verbatim>\<open>reintentarPendientes\<close>\<close>

text \<open>
  \<^verbatim>\<open>strtok\<close> with the delimiter \<open>;\<close>: it skips leading delimiters, returns no token when
  nothing is left, and otherwise returns the text up to the next delimiter. The second
  component is the text the next call with a null first argument continues from.
\<close>

definition strtok :: "string \<Rightarrow> string option \<times> string" where
  "strtok s =
     (let s1 = dropWhile (\<lambda>c. c = CHR '';'') s
      in if s1 = [] then (None, [])
         else (Some (takeWhile (\<lambda>c. c \<noteq> CHR '';'') s1),
               drop 1 (dropWhile (\<lambda>c. c \<noteq> CHR '';'') s1)))"

definition buffer_tras_strtok :: "string \<Rightarrow> string" where
  \<comment> \<open>the C string at the start of the buffer once \<^verbatim>\<open>strtok\<close> has ended the first token\<close>
  "buffer_tras_strtok l =
     takeWhile (\<lambda>c. c = CHR '';'') l
       @ takeWhile (\<lambda>c. c \<noteq> CHR '';'') (dropWhile (\<lambda>c. c = CHR '';'') l)"

datatype analisis = Cortar | Corrupta | Campos medicion

definition parsearLinea :: "string \<Rightarrow> analisis" where
  \<comment> \<open>the parse in \<^verbatim>\<open>reintentarPendientes\<close>: \<open>Cortar\<close> is its \<^verbatim>\<open>break\<close>,
      \<open>Corrupta\<close> the branch that deletes the line\<close>
  "parsearLinea l =
     (case strtok l of
        (None, _) \<Rightarrow> Cortar
      | (Some ident, r1) \<Rightarrow>
          (case strtok r1 of
             (None, _) \<Rightarrow> Cortar
           | (Some timestamp, r2) \<Rightarrow>
               (case strtok r2 of (tk_temp, r3) \<Rightarrow>
                case strtok r3 of (tk_cond, r4) \<Rightarrow>
                case strtok r4 of (tk_bat, r5) \<Rightarrow>
                case strtok r5 of (tk_volt, r6) \<Rightarrow>
                case strtok r6 of (tk_cob, r7) \<Rightarrow>
                  (case (tk_temp, tk_cond, tk_bat, tk_volt, tk_cob) of
                     (Some a, Some b, Some c, Some d, Some e) \<Rightarrow>
                        Campos \<lparr>temp = a, cond = b, bat = c, volt = d, cob = e\<rparr>
                   | _ \<Rightarrow> Corrupta))))"

text \<open>
  The transport \<^verbatim>\<open>enviarHTTP\<close> is outside the model: its result is given by an oracle
  \<open>red\<close> from the number of the call within the cycle to the acknowledgment. The drain
  returns, besides the state, the list of its transmission attempts with their results.
\<close>

function reintentar_bucle ::
  "(nat \<Rightarrow> bool) \<Rightarrow> int \<Rightarrow> int \<Rightarrow> int \<Rightarrow> (medicion \<times> bool) list \<Rightarrow> estado
     \<Rightarrow> int \<times> (medicion \<times> bool) list \<times> estado" where
  "reintentar_bucle red pendientes intentos enviados tr s =
     (if intentos < MAX_REINTENTOS \<and> intentos < pendientes then
        (case leerLineaN s ARCHIVO_PENDIENTES 0 BUFFER_SIZE of
           None \<Rightarrow> (enviados, tr, s)
         | Some l \<Rightarrow>
             (case parsearLinea l of
                Cortar \<Rightarrow> (enviados, tr, s\<lparr>bufferLinea := buffer_tras_strtok l\<rparr>)
              | Corrupta \<Rightarrow>
                  reintentar_bucle red pendientes (intentos + 1) enviados tr
                    (snd (eliminarPrimeraLinea (s\<lparr>bufferLinea := buffer_tras_strtok l\<rparr>)
                            ARCHIVO_PENDIENTES))
              | Campos m \<Rightarrow>
                  if red (length tr) then
                    reintentar_bucle red pendientes (intentos + 1) (enviados + 1) (tr @ [(m, True)])
                      (snd (case leerLineaN s ARCHIVO_PENDIENTES 0 BUFFER_SIZE of
                              None \<Rightarrow> marcarComoEnviado (s\<lparr>bufferLinea := buffer_tras_strtok l\<rparr>)
                                        (buffer_tras_strtok l)
                            | Some l2 \<Rightarrow> marcarComoEnviado (s\<lparr>bufferLinea := l2\<rparr>) l2))
                  else (enviados, tr @ [(m, False)], s\<lparr>bufferLinea := buffer_tras_strtok l\<rparr>)))
      else (enviados, tr, s))"
  by pat_completeness auto
termination
  by (relation "measure (\<lambda>(red, pendientes, intentos, enviados, tr, s). nat (MAX_REINTENTOS - intentos))")
     auto

declare reintentar_bucle.simps [simp del]

definition reintentarPendientes ::
  "(nat \<Rightarrow> bool) \<Rightarrow> estado \<Rightarrow> int \<times> (medicion \<times> bool) list \<times> estado" where
  "reintentarPendientes red s =
     (if \<not> sdDisponible s then (0, [], s)
      else let pendientes = contarLineas s ARCHIVO_PENDIENTES
           in if pendientes = 0 then (0, [], s)
              else reintentar_bucle red pendientes 0 0 [] s)"

subsection \<open>The operating cycle: \<^verbatim>\<open>loop\<close>\<close>

definition leerBateria :: "int option \<Rightarrow> estado \<Rightarrow> estado" where
  \<comment> \<open>the argument is the voltage token of the modem's answer, if there is one\<close>
  "leerBateria v s =
     (let s1 = (case v of None \<Rightarrow> s | Some x \<Rightarrow> s\<lparr>voltios := x\<rparr>)
      in if voltios s1 > 3000 \<and> voltios s1 < 3300
         then s1\<lparr>contador_bateria_baja := contador_bateria_baja s1 + 1\<rparr>
         else if voltios s1 \<ge> 3300 then s1\<lparr>contador_bateria_baja := 0\<rparr> else s1)"

record entrada =
  acuses :: "nat \<Rightarrow> bool"
  baterias :: "int option list"
  reloj :: "32 word"
  buffers :: medicion

definition paso4 :: "bool \<Rightarrow> bool \<Rightarrow> estado \<Rightarrow> estado" where
  \<comment> \<open>the end of \<^verbatim>\<open>loop\<close>, after \<^verbatim>\<open>guardarMedicion\<close> and \<^verbatim>\<open>enviarHTTP\<close> have returned
      \<open>guardado\<close> and \<open>enviado\<close>\<close>
  "paso4 enviado guardado s =
     (if enviado \<and> guardado then
        (let numLineas = contarLineas s ARCHIVO_PENDIENTES
         in if numLineas > 1 then
              snd (case leerLineaN s ARCHIVO_PENDIENTES (numLineas - 1) BUFFER_SIZE of
                     None \<Rightarrow> marcarComoEnviado s (bufferLinea s)
                   | Some l \<Rightarrow> marcarComoEnviado (s\<lparr>bufferLinea := l\<rparr>) l)
            else s)
      else s)"

text \<open>
  One cycle takes from outside: the acknowledgments of the transport, the voltage tokens of
  the calls of \<^verbatim>\<open>leerBateria\<close>, the value of \<^verbatim>\<open>millis()\<close> when the measurement is
  stored, and the five texts accumulated from the sensor readings. The serial output, the
  delays and the sleep of the modem are left out.
\<close>

definition loop :: "entrada \<Rightarrow> estado \<Rightarrow> estado option" where
  \<comment> \<open>\<open>None\<close>: the sketch has powered down for ever and the call does not return\<close>
  "loop e s =
     (if contador_bateria_baja s > UMBRAL_BATERIA_BAJA then None
      else case reintentarPendientes (acuses e) s of (reenviados, tr, s1) \<Rightarrow>
        let s2 = fold leerBateria (baterias e) s1;
            s3 = s2\<lparr>contadorMediciones := contadorMediciones s2 + 1\<rparr>;
            (guardado, s4) = guardarMedicion (reloj e) (buffers e) s3;
            enviado = acuses e (length tr)
        in Some (paso4 enviado guardado s4))"

fun ciclos :: "entrada list \<Rightarrow> estado \<Rightarrow> estado option" where
  \<comment> \<open>consecutive calls of \<^verbatim>\<open>loop\<close> within one boot\<close>
  "ciclos [] s = Some s"
| "ciclos (e # es) s = (case loop e s of None \<Rightarrow> None | Some s' \<Rightarrow> ciclos es s')"

subsection \<open>Power loss inside a promotion\<close>

text \<open>
  The card operations of \<^verbatim>\<open>marcarComoEnviado\<close> followed by
  \<^verbatim>\<open>eliminarPrimeraLinea\<close>, in the order of the source. The bytes written through a
  handle reach the file when the handle is closed, so a write and its \<^verbatim>\<open>close\<close> are one
  step. Power loss after \<open>k\<close> steps leaves the card as the first \<open>k\<close> steps made it.
\<close>

definition pasosPromocion :: "string \<Rightarrow> (tarjeta \<Rightarrow> tarjeta) list" where
  "pasosPromocion linea =
     [anexar ARCHIVO_ENVIADOS [],
      anexar ARCHIVO_ENVIADOS (println linea),
      anexar ARCHIVO_TEMP [],
      (\<lambda>t. anexar ARCHIVO_TEMP (copiarSinPrimera False (contenido t ARCHIVO_PENDIENTES)) t),
      (\<lambda>t. t(ARCHIVO_PENDIENTES := None)),
      anexar ARCHIVO_PENDIENTES [],
      (\<lambda>t. anexar ARCHIVO_PENDIENTES (contenido t ARCHIVO_TEMP) t),
      (\<lambda>t. t(ARCHIVO_TEMP := None))]"

definition promocionInterrumpida :: "nat \<Rightarrow> string \<Rightarrow> tarjeta \<Rightarrow> tarjeta" where
  "promocionInterrumpida k linea t = fold (\<lambda>paso. paso) (take k (pasosPromocion linea)) t"

text \<open>
  The records of a log are its complete lines (those ended by LF, as \<^verbatim>\<open>contarLineas\<close>
  and \<^verbatim>\<open>leerLineaN\<close> see them) without the carriage returns at their end: \<open>println\<close>
  ends a line with CR LF, and \<^verbatim>\<open>leerLineaN\<close> keeps the CR in what it hands to
  \<^verbatim>\<open>marcarComoEnviado\<close>, which ends the line with CR LF again.
\<close>

fun lineas_desde :: "string \<Rightarrow> string \<Rightarrow> string list" where
  "lineas_desde actual [] = []"
| "lineas_desde actual (c # cs) =
     (if c = LF then actual # lineas_desde [] cs else lineas_desde (actual @ [c]) cs)"

definition lineas :: "string \<Rightarrow> string list" where
  "lineas bs = lineas_desde [] bs"

definition registro :: "string \<Rightarrow> string" where
  "registro l = rev (dropWhile (\<lambda>c. c = CR) (rev l))"

definition completo :: "string \<Rightarrow> bool" where
  \<comment> \<open>the bytes are a sequence of complete lines\<close>
  "completo bs = (bs = [] \<or> last bs = LF)"

section \<open>Sketch "modular v3.0": the same two logs, without header lines\<close>

text \<open>
  This sketch has no availability flag; its state is the card, taken as mounted. The
  measurement is a structure
  of floating-point and integer readings that \<^verbatim>\<open>generarLineaCSV\<close> formats with
  \<^verbatim>\<open>dtostrf\<close>, \<^verbatim>\<open>itoa\<close> and \<^verbatim>\<open>ultoa\<close>; the model starts from the formatted line.
  \<^verbatim>\<open>SD.rename\<close> moves the bytes of the first file to the second name.
\<close>

definition contarLineas_mod :: "tarjeta \<Rightarrow> string \<Rightarrow> int" where
  "contarLineas_mod t nombreArchivo =
     (case t nombreArchivo of
        None \<Rightarrow> 0
      | Some bs \<Rightarrow> fold (\<lambda>c lineas. if c = LF then incr16 lineas else lineas) bs 0)"

fun leerPrimeraLinea_bucle :: "string \<Rightarrow> string \<Rightarrow> string" where
  \<comment> \<open>arguments: the buffer up to i, the unread bytes\<close>
  "leerPrimeraLinea_bucle buf [] = buf"
| "leerPrimeraLinea_bucle buf (c # cs) =
     (if length buf < 149
      then (if c = LF \<or> c = CR then buf else leerPrimeraLinea_bucle (buf @ [c]) cs)
      else buf)"

definition leerPrimeraLinea :: "tarjeta \<Rightarrow> string \<Rightarrow> string option" where
  "leerPrimeraLinea t nombreArchivo =
     (case t nombreArchivo of
        None \<Rightarrow> None
      | Some bs \<Rightarrow> (let buf = leerPrimeraLinea_bucle [] bs
                    in if length buf > 0 then Some buf else None))"

fun saltarPrimeraLinea :: "string \<Rightarrow> string" where
  "saltarPrimeraLinea [] = []"
| "saltarPrimeraLinea (c # cs) = (if c = LF then cs else saltarPrimeraLinea cs)"

definition moverPrimeraLineaAEnviados :: "tarjeta \<Rightarrow> bool \<times> tarjeta" where
  "moverPrimeraLineaAEnviados t =
     (case leerPrimeraLinea t ARCHIVO_PENDIENTES of
        None \<Rightarrow> (False, t)
      | Some linea \<Rightarrow>
          let t1 = anexar ARCHIVO_ENVIADOS (println linea) t;
              t2 = anexar ARCHIVO_TEMP (saltarPrimeraLinea (contenido t1 ARCHIVO_PENDIENTES)) t1;
              t3 = t2(ARCHIVO_PENDIENTES := None);
              t4 = t3(ARCHIVO_PENDIENTES := t3 ARCHIVO_TEMP, ARCHIVO_TEMP := None)
          in (True, t4))"

function reintentos_bucle_mod ::
  "(nat \<Rightarrow> bool) \<Rightarrow> int \<Rightarrow> (string \<times> bool) list \<Rightarrow> tarjeta \<Rightarrow> (string \<times> bool) list \<times> tarjeta" where
  "reintentos_bucle_mod red reintentos tr t =
     (if reintentos < MAX_REINTENTOS then
        (case leerPrimeraLinea t ARCHIVO_PENDIENTES of
           None \<Rightarrow> (tr, t)
         | Some linea \<Rightarrow>
             if red (length tr)
             then reintentos_bucle_mod red (reintentos + 1) (tr @ [(linea, True)])
                    (snd (moverPrimeraLineaAEnviados t))
             else (tr @ [(linea, False)], t))
      else (tr, t))"
  by pat_completeness auto
termination
  by (relation "measure (\<lambda>(red, reintentos, tr, t). nat (MAX_REINTENTOS - reintentos))") auto

declare reintentos_bucle_mod.simps [simp del]

definition reintentarPendientes_mod ::
  "(nat \<Rightarrow> bool) \<Rightarrow> tarjeta \<Rightarrow> (string \<times> bool) list \<times> tarjeta" where
  \<comment> \<open>the attempts are recorded by the line read; its parse into numbers feeds the transport
      only\<close>
  "reintentarPendientes_mod red t =
     (if contarLineas_mod t ARCHIVO_PENDIENTES = 0 then ([], t)
      else reintentos_bucle_mod red 0 [] t)"

definition guardarEnSD :: "string \<Rightarrow> tarjeta \<Rightarrow> bool \<times> tarjeta" where
  \<comment> \<open>the first argument is the line that \<^verbatim>\<open>generarLineaCSV\<close> has produced\<close>
  "guardarEnSD linea t = (True, anexar ARCHIVO_PENDIENTES (println linea) t)"

definition loop_mod :: "(nat \<Rightarrow> bool) \<Rightarrow> int \<Rightarrow> string \<Rightarrow> tarjeta \<Rightarrow> tarjeta option" where
  \<comment> \<open>the second argument is the value of contador_bateria_baja, the third the formatted
      measurement\<close>
  "loop_mod red bateria_baja linea t =
     (if bateria_baja > UMBRAL_BATERIA_BAJA then None
      else case reintentarPendientes_mod red t of (tr, t1) \<Rightarrow>
        let t2 = snd (guardarEnSD linea t1)
        in Some (if red (length tr) then snd (moverPrimeraLineaAEnviados t2) else t2))"

section \<open>Sketch "SD HTTP SIM800": one log \<^verbatim>\<open>datos.csv\<close> with a status field\<close>

definition ARCHIVO_DATOS :: string where "ARCHIVO_DATOS = ''datos.csv''"

definition guardarDatosSD ::
  "bool \<Rightarrow> 32 word \<Rightarrow> 32 word \<Rightarrow> medicion \<Rightarrow> tarjeta \<Rightarrow> bool \<times> tarjeta" where
  \<comment> \<open>arguments: sdDisponible, id, the value of \<^verbatim>\<open>millis()\<close>, the five texts\<close>
  "guardarDatosSD disponible ident ms m t =
     (if \<not> disponible then (False, t)
      else (True, anexar ARCHIVO_DATOS
              (decimal (unat ident) @ '';'' @ decimal (unat ms) @ '';'' @ temp m @ '';''
                 @ cond m @ '';'' @ bat m @ '';'' @ volt m @ '';'' @ cob m @ '';''
                 @ println ''PENDIENTE'') t))"

fun indexOf_desde :: "string \<Rightarrow> int \<Rightarrow> string \<Rightarrow> int" where
  "indexOf_desde pat i [] = (if pat = [] then i else - 1)"
| "indexOf_desde pat i (c # cs) =
     (if take (length pat) (c # cs) = pat then i else indexOf_desde pat (i + 1) cs)"

definition indexOf :: "string \<Rightarrow> string \<Rightarrow> int" where
  \<comment> \<open>\<^verbatim>\<open>String::indexOf\<close>: the position of the first occurrence, or -1\<close>
  "indexOf s pat = indexOf_desde pat 0 s"

text \<open>
  \<^verbatim>\<open>reintentarEnviosPendientes\<close> reads \<^verbatim>\<open>datos.csv\<close> through one handle while
  \<^verbatim>\<open>marcarComoEnviado(id)\<close> rewrites the file. The model takes the bytes that the handle
  delivers as given and returns the number of acknowledged records and the attempts, each
  with the line it was made for.
\<close>

fun reintentarEnvios_bucle ::
  "(nat \<Rightarrow> bool) \<Rightarrow> int \<Rightarrow> int \<Rightarrow> string \<Rightarrow> (string \<times> bool) list \<Rightarrow> string
     \<Rightarrow> int \<times> (string \<times> bool) list" where
  "reintentarEnvios_bucle red intentos enviados linea tr [] = (enviados, tr)"
| "reintentarEnvios_bucle red intentos enviados linea tr (c # cs) =
     (if intentos < MAX_REINTENTOS then
        (if c = LF then
           (if indexOf linea ''PENDIENTE'' > 0 then
              (if red (length tr)
               then reintentarEnvios_bucle red (intentos + 1) (enviados + 1) [] (tr @ [(linea, True)]) cs
               else reintentarEnvios_bucle red (intentos + 1) enviados [] (tr @ [(linea, False)]) cs)
            else reintentarEnvios_bucle red intentos enviados [] tr cs)
         else reintentarEnvios_bucle red intentos enviados (linea @ [c]) tr cs)
      else (enviados, tr))"

definition reintentarEnviosPendientes ::
  "(nat \<Rightarrow> bool) \<Rightarrow> bool \<Rightarrow> tarjeta \<Rightarrow> int \<times> (string \<times> bool) list" where
  "reintentarEnviosPendientes red disponible t =
     (if \<not> disponible then (0, [])
      else case t ARCHIVO_DATOS of
             None \<Rightarrow> (0, [])
           | Some bs \<Rightarrow> reintentarEnvios_bucle red 0 0 [] [] bs)"

section \<open>Notions used to state the properties\<close>

definition sin_LF :: "medicion \<Rightarrow> bool" where
  "sin_LF m = (LF \<notin> set (temp m) \<union> set (cond m) \<union> set (bat m) \<union> set (volt m) \<union> set (cob m))"

definition anexarMediciones :: "(32 word \<times> medicion) list \<Rightarrow> estado \<Rightarrow> estado" where
  \<comment> \<open>measurements stored one after another as \<^verbatim>\<open>loop\<close> stores them: the counter is
      incremented, then \<^verbatim>\<open>guardarMedicion\<close> is called\<close>
  "anexarMediciones rs s =
     fold (\<lambda>(ms, m) s. snd (guardarMedicion ms m (s\<lparr>contadorMediciones := contadorMediciones s + 1\<rparr>))) rs s"

definition m1 :: medicion where
  "m1 = \<lparr>temp = ''25.1'', cond = ''100.0'', bat = ''80'', volt = ''3900'', cob = ''20''\<rparr>"


definition para_en_fallo :: "('a \<times> bool) list \<Rightarrow> bool" where
  \<comment> \<open>every attempt but the last was acknowledged: no attempt follows a failed one\<close>
  "para_en_fallo tr = list_all snd (butlast tr)"

definition traza_acotada :: "int \<Rightarrow> ('a \<times> bool) list \<Rightarrow> bool" where
  "traza_acotada k tr = (int (length tr) \<le> k \<and> para_en_fallo tr)"

definition datos_dos_pendientes :: tarjeta where
  "datos_dos_pendientes =
     (\<lambda>f. None)(ARCHIVO_DATOS \<mapsto> ''1;5;a;b;c;d;e;PENDIENTE'' @ [CR, LF] @ ''2;5;a;b;c;d;e;PENDIENTE'' @ [CR, LF])"


definition registrar :: "string list \<Rightarrow> string" where
  \<comment> \<open>the bytes of a log to which the lines have been appended with \<open>println\<close>, in order\<close>
  "registrar ls = concat (map println ls)"





definition mismos_globales :: "estado \<Rightarrow> estado \<Rightarrow> bool" where
  "mismos_globales s s' = (sdDisponible s' = sdDisponible s \<and> contadorMediciones s' = contadorMediciones s)"

definition entrada_sin_red :: entrada where
  \<comment> \<open>a cycle in which the transport never acknowledges\<close>
  "entrada_sin_red = \<lparr>acuses = (\<lambda>k. False), baterias = [Some 4000], reloj = 5, buffers = m1\<rparr>"

definition tras_primer_arranque :: estado where
  "tras_primer_arranque = the (loop entrada_sin_red (setup_v2 True (arranque (\<lambda>f. None))))"

definition tras_segundo_arranque :: estado where
  \<comment> \<open>the device is reset with the same card in it and runs one more cycle\<close>
  "tras_segundo_arranque = the (loop entrada_sin_red (setup_v2 True (arranque (sd tras_primer_arranque))))"

definition identificadores :: "string \<Rightarrow> string list" where
  \<comment> \<open>the first field of every complete line\<close>
  "identificadores bs = map (takeWhile (\<lambda>c. c \<noteq> CHR '';'')) (lineas bs)"


definition copias :: "string \<Rightarrow> string \<Rightarrow> tarjeta \<Rightarrow> nat" where
  \<comment> \<open>how many lines of the file hold the record\<close>
  "copias r f t = length (filter (\<lambda>x. registro x = r) (lineas (contenido t f)))"


definition r0 :: string where "r0 = ''1;5;a;b;c;d;e''"

definition tarjeta_interrumpida :: tarjeta where
  \<comment> \<open>power is lost while the head record is promoted, after the sent log has been closed\<close>
  "tarjeta_interrumpida =
     promocionInterrumpida 2 (r0 @ [CR])
       ((\<lambda>f. None)(ARCHIVO_PENDIENTES \<mapsto> println r0, ARCHIVO_ENVIADOS \<mapsto> println CABECERA))"

definition tras_repetir_drenaje :: estado where
  \<comment> \<open>the device boots again and drains with an acknowledging transport\<close>
  "tras_repetir_drenaje =
     snd (snd (reintentarPendientes (\<lambda>k. True) (setup_v2 True (arranque tarjeta_interrumpida))))"

definition con_atraso :: estado where
  \<comment> \<open>a fresh store in which two measurements have been stored: header, backlog, new record\<close>
  "con_atraso = anexarMediciones [(5, m1), (6, m1)] (setup_v2 True (arranque (\<lambda>f. None)))"

definition solo_el_nuevo :: estado where
  \<comment> \<open>the pending log holds the record just stored and nothing else\<close>
  "solo_el_nuevo =
     snd (guardarMedicion 5 m1
       ((setup_v2 True (arranque ((\<lambda>f. None)(ARCHIVO_PENDIENTES \<mapsto> []))))\<lparr>contadorMediciones := 1\<rparr>))"

definition antes_del_envio_mod :: tarjeta where
  \<comment> \<open>four lines of backlog, drained with every attempt acknowledged, then the new line stored\<close>
  "antes_del_envio_mod =
     snd (guardarEnSD ''5;e''
       (snd (reintentarPendientes_mod (\<lambda>k. True)
          ((\<lambda>f. None)(ARCHIVO_PENDIENTES \<mapsto> registrar [''1;a'', ''2;b'', ''3;c'', ''4;d''])))))"

definition cola_bloqueada :: estado where
  \<comment> \<open>the pending log holds a line with a single field, then a well-formed record\<close>
  "cola_bloqueada =
     setup_v2 True (arranque ((\<lambda>f. None)(ARCHIVO_PENDIENTES \<mapsto> println ''abc'' @ println r0,
                                           ARCHIVO_ENVIADOS \<mapsto> [])))"

definition cola_con_corrupta :: estado where
  \<comment> \<open>the same with a malformed line of three fields\<close>
  "cola_con_corrupta =
     setup_v2 True (arranque ((\<lambda>f. None)(ARCHIVO_PENDIENTES \<mapsto> println ''1;5;abc'' @ println r0,
                                           ARCHIVO_ENVIADOS \<mapsto> [])))"


definition r1 :: string where "r1 = ''2;6;a;b;c;d;e''"




section \<open>Facts about the card\<close>

lemma nombres_distintos [simp]:
  "ARCHIVO_PENDIENTES \<noteq> ARCHIVO_ENVIADOS" "ARCHIVO_ENVIADOS \<noteq> ARCHIVO_PENDIENTES"
  "ARCHIVO_PENDIENTES \<noteq> ARCHIVO_TEMP" "ARCHIVO_TEMP \<noteq> ARCHIVO_PENDIENTES"
  "ARCHIVO_ENVIADOS \<noteq> ARCHIVO_TEMP" "ARCHIVO_TEMP \<noteq> ARCHIVO_ENVIADOS"
  by (simp_all add: ARCHIVO_PENDIENTES_def ARCHIVO_ENVIADOS_def ARCHIVO_TEMP_def)

lemma contenido_anexar [simp]:
  "contenido (anexar f bs t) g = (if g = f then contenido t f @ bs else contenido t g)"
  by (simp add: contenido_def anexar_def)

lemma anexar_apply [simp]:
  "anexar f bs t g = (if g = f then Some (contenido t f @ bs) else t g)"
  by (simp add: anexar_def)

lemma contenido_Some [simp]: "t f = Some bs \<Longrightarrow> contenido t f = bs"
  by (simp add: contenido_def)

lemma contenido_None [simp]: "t f = None \<Longrightarrow> contenido t f = []"
  by (simp add: contenido_def)

lemma contenido_upd [simp]:
  "contenido (t(f := v)) g = (if g = f then (case v of None \<Rightarrow> [] | Some bs \<Rightarrow> bs) else contenido t g)"
  by (simp add: contenido_def)

section \<open>Appending a measurement\<close>

text \<open>
  C2: each of the three functions that store a measurement (\<^verbatim>\<open>guardarMedicion\<close>,
  \<^verbatim>\<open>guardarEnSD\<close>, \<^verbatim>\<open>guardarDatosSD\<close>) leaves its log as the log before the call,
  byte for byte, followed by the line and its end of line CR LF (a missing log counts as
  empty); no other file and no other part of the state changes, and without a card nothing
  changes at all.
\<close>

theorem guardar_solo_anexa:
  "snd (guardarMedicion ms m s) =
     (if sdDisponible s
      then s\<lparr>sd := (sd s)(ARCHIVO_PENDIENTES \<mapsto>
                 contenido (sd s) ARCHIVO_PENDIENTES @ lineaCSV (contadorMediciones s) ms m @ [CR, LF])\<rparr>
      else s)
   \<and> snd (guardarEnSD linea t) =
        t(ARCHIVO_PENDIENTES \<mapsto> contenido t ARCHIVO_PENDIENTES @ linea @ [CR, LF])
   \<and> snd (guardarDatosSD disponible ident ms m t) =
       (if disponible
        then t(ARCHIVO_DATOS \<mapsto> contenido t ARCHIVO_DATOS
                 @ (decimal (unat ident) @ '';'' @ decimal (unat ms) @ '';'' @ temp m @ '';''
                     @ cond m @ '';'' @ bat m @ '';'' @ volt m @ '';'' @ cob m @ '';PENDIENTE'')
                 @ [CR, LF])
        else t)"
  by (simp add: guardarMedicion_def guardarEnSD_def guardarDatosSD_def anexar_def println_def)

section \<open>Counting and reading lines\<close>

lemma digito_set: "d < 10 \<Longrightarrow> digito d \<in> set ''0123456789''"
  unfolding digito_def by (rule nth_mem) simp

lemma decimal_digitos: "set (decimal n) \<subseteq> set ''0123456789''"
proof (induction n rule: decimal.induct)
  case (1 n)
  show ?case
  proof (cases "n < 10")
    case True
    then show ?thesis using digito_set[of n] by (subst decimal.simps) simp
  next
    case False
    have "digito (n mod 10) \<in> set ''0123456789''" by (rule digito_set) simp
    with False 1 show ?thesis by (subst decimal.simps) simp
  qed
qed

lemma decimal_no_vacio: "decimal n \<noteq> []"
  by (subst decimal.simps) simp

lemma decimal_sin_LF: "LF \<notin> set (decimal n)"
  using decimal_digitos[of n] by auto

lemma decimal_sin_pyc: "CHR '';'' \<notin> set (decimal n)"
  using decimal_digitos[of n] by auto

lemma cuenta_fold:
  "0 \<le> n \<Longrightarrow> n + int (length (filter (\<lambda>c. c = LF) bs)) \<le> 32767 \<Longrightarrow>
   fold (\<lambda>c lineas. if c = LF then incr16 lineas else lineas) bs n
     = n + int (length (filter (\<lambda>c. c = LF) bs))"
proof (induction bs arbitrary: n)
  case Nil
  then show ?case by simp
next
  case (Cons c cs)
  show ?case
  proof (cases "c = LF")
    case True
    with Cons.prems have "n < 32767" by simp
    then have i: "incr16 n = n + 1" by (simp add: incr16_def)
    from True Cons.prems have "fold (\<lambda>c lineas. if c = LF then incr16 lineas else lineas) cs (n + 1)
        = (n + 1) + int (length (filter (\<lambda>c. c = LF) cs))"
      by (intro Cons.IH) simp_all
    with True i show ?thesis by simp
  next
    case False
    with Cons show ?thesis by simp
  qed
qed

lemma leerLineaN_bucle_linea:
  "LF \<notin> set l \<Longrightarrow> int (length buf + length l) < bufferSize - 1 \<Longrightarrow>
   leerLineaN_bucle n bufferSize n buf (l @ LF # resto) = Some (buf @ l)"
proof (induction l arbitrary: buf)
  case Nil
  then show ?case by simp
next
  case (Cons c cs)
  from Cons.prems have "leerLineaN_bucle n bufferSize n (buf @ [c]) (cs @ LF # resto) = Some ((buf @ [c]) @ cs)"
    by (intro Cons.IH) simp_all
  with Cons.prems show ?case by auto
qed

lemma lineaCSV_sin_LF: "sin_LF m \<Longrightarrow> LF \<notin> set (lineaCSV i ms m)"
  by (simp add: lineaCSV_def sin_LF_def decimal_sin_LF)

lemma anexarMediciones_Cons:
  "anexarMediciones ((ms, m) # rs) s =
     anexarMediciones rs (snd (guardarMedicion ms m (s\<lparr>contadorMediciones := contadorMediciones s + 1\<rparr>)))"
  by (simp add: anexarMediciones_def)

lemma anexarMediciones_contenido:
  "sdDisponible s \<Longrightarrow> \<forall>(ms, m) \<in> set rs. sin_LF m \<Longrightarrow>
   \<exists>X. contenido (sd (anexarMediciones rs s)) ARCHIVO_PENDIENTES = contenido (sd s) ARCHIVO_PENDIENTES @ X
     \<and> length (filter (\<lambda>c. c = LF) X) = length rs
     \<and> sdDisponible (anexarMediciones rs s)"
proof (induction rs arbitrary: s)
  case Nil
  then show ?case by (simp add: anexarMediciones_def)
next
  case (Cons r rs)
  obtain ms m where r: "r = (ms, m)" by (cases r) auto
  let ?l = "println (lineaCSV (contadorMediciones s + 1) ms m)"
  let ?s1 = "snd (guardarMedicion ms m (s\<lparr>contadorMediciones := contadorMediciones s + 1\<rparr>))"
  from Cons.prems r have m: "sin_LF m" by simp
  have s1: "sdDisponible ?s1" "contenido (sd ?s1) ARCHIVO_PENDIENTES = contenido (sd s) ARCHIVO_PENDIENTES @ ?l"
    using Cons.prems(1) by (simp_all add: guardarMedicion_def)
  from Cons.prems have "\<forall>(ms, m) \<in> set rs. sin_LF m" by simp
  from Cons.IH[OF s1(1) this] obtain X where
    X: "contenido (sd (anexarMediciones rs ?s1)) ARCHIVO_PENDIENTES = contenido (sd ?s1) ARCHIVO_PENDIENTES @ X"
       "length (filter (\<lambda>c. c = LF) X) = length rs" "sdDisponible (anexarMediciones rs ?s1)"
    by blast
  have "length (filter (\<lambda>c. c = LF) ?l) = 1"
    using lineaCSV_sin_LF[OF m] by (auto simp: println_def filter_empty_conv)
  with X s1 show ?case
    unfolding r anexarMediciones_Cons by (intro exI[of _ "?l @ X"]) simp
qed

lemma contarLineas_contenido:
  "contarLineas s f =
     (if sdDisponible s
      then fold (\<lambda>c lineas. if c = LF then incr16 lineas else lineas) (contenido (sd s) f) 0 else 0)"
  by (simp add: contarLineas_def contenido_def split: option.splits)

lemma leerLineaN_contenido:
  "leerLineaN s f n b =
     (if sdDisponible s then map_option cadena (leerLineaN_bucle n b 0 [] (contenido (sd s) f))
      else None)"
  by (simp add: leerLineaN_def contenido_def split: option.splits)

lemma CABECERA_sin_LF: "LF \<notin> set CABECERA"
  by (simp add: CABECERA_def)

lemma length_CABECERA: "length CABECERA = 64"
  by (simp add: CABECERA_def)

section \<open>The header line of the pending log\<close>

text \<open>
  C10, as amended: on a card without \<^verbatim>\<open>pendient.csv\<close>, \<^verbatim>\<open>setup\<close> creates the pending log with the
  header line. After any measurements whose texts hold no line feed have been stored
  (fewer than 32767 of them, so that the 16-bit counter of \<^verbatim>\<open>contarLineas\<close> does not
  overflow), \<^verbatim>\<open>contarLineas\<close> reports one more than the number of measurements, and
  \<^verbatim>\<open>leerLineaN\<close> at index 0 yields the header line (with the carriage return that
  \<open>println\<close> wrote before the line feed), not the oldest measurement.
\<close>

theorem cabecera_cuenta_como_registro:
  assumes "t ARCHIVO_PENDIENTES = None"
    and "\<forall>(ms, m) \<in> set rs. sin_LF m"
    and "length rs < 32767"
  shows "contarLineas (anexarMediciones rs (setup_v2 True (arranque t))) ARCHIVO_PENDIENTES
           = int (length rs) + 1
       \<and> leerLineaN (anexarMediciones rs (setup_v2 True (arranque t))) ARCHIVO_PENDIENTES 0 BUFFER_SIZE
           = Some (CABECERA @ [CR])"
proof -
  let ?s0 = "setup_v2 True (arranque t)"
  have s0: "sdDisponible ?s0" "contenido (sd ?s0) ARCHIVO_PENDIENTES = CABECERA @ [CR, LF]"
    using assms(1) by (simp_all add: setup_v2_def arranque_def crearSiFalta_def println_def)
  from anexarMediciones_contenido[OF s0(1) assms(2)] obtain X where
    X: "contenido (sd (anexarMediciones rs ?s0)) ARCHIVO_PENDIENTES = (CABECERA @ [CR, LF]) @ X"
       "length (filter (\<lambda>c. c = LF) X) = length rs" "sdDisponible (anexarMediciones rs ?s0)"
    unfolding s0(2) by blast
  have n: "length (filter (\<lambda>c. c = LF) ((CABECERA @ [CR, LF]) @ X)) = length rs + 1"
    using X(2) CABECERA_sin_LF by (auto simp: filter_empty_conv)
  have "fold (\<lambda>c lineas. if c = LF then incr16 lineas else lineas) ((CABECERA @ [CR, LF]) @ X) 0
          = 0 + int (length (filter (\<lambda>c. c = LF) ((CABECERA @ [CR, LF]) @ X)))"
    using assms(3) n by (intro cuenta_fold) simp_all
  then have c: "contarLineas (anexarMediciones rs ?s0) ARCHIVO_PENDIENTES = int (length rs) + 1"
    unfolding contarLineas_contenido X(1) n using X(3) by simp
  have "leerLineaN_bucle 0 BUFFER_SIZE 0 [] ((CABECERA @ [CR]) @ LF # X) = Some ([] @ CABECERA @ [CR])"
    using CABECERA_sin_LF by (intro leerLineaN_bucle_linea) (simp_all add: length_CABECERA BUFFER_SIZE_def)
  then have "leerLineaN (anexarMediciones rs ?s0) ARCHIVO_PENDIENTES 0 BUFFER_SIZE = Some (CABECERA @ [CR])"
    unfolding leerLineaN_contenido X(1) using X(3) by (simp add: cadena_def CABECERA_def)
  with c show ?thesis by simp
qed

theorem cabecera_cuenta_como_registro_witness:
  "contarLineas (anexarMediciones [(5, m1)] (setup_v2 True (arranque (\<lambda>f. None)))) ARCHIVO_PENDIENTES = 2
   \<and> leerLineaN (anexarMediciones [(5, m1)] (setup_v2 True (arranque (\<lambda>f. None)))) ARCHIVO_PENDIENTES 0 BUFFER_SIZE
       = Some (CABECERA @ [CR])"
  using cabecera_cuenta_como_registro [of "\<lambda>f. None" "[(5, m1)]"]
  by (simp add: sin_LF_def m1_def)


lemma cuenta_fold_general:
  "- 32768 \<le> n \<Longrightarrow> n \<le> 32767 \<Longrightarrow>
   fold (\<lambda>c lineas. if c = LF then incr16 lineas else lineas) bs n
     = (n + int (length (filter (\<lambda>c. c = LF) bs)) + 32768) mod 65536 - 32768"
proof (induction bs arbitrary: n)
  case Nil
  then show ?case by simp
next
  case (Cons c cs)
  show ?case
  proof (cases "c = LF")
    case True
    let ?k = "int (length (filter (\<lambda>c. c = LF) cs))"
    have i: "incr16 n = (n + 1 + 32768) mod 65536 - 32768"
      using Cons.prems by (auto simp: incr16_def)
    have r: "- 32768 \<le> incr16 n" "incr16 n \<le> 32767"
      using Cons.prems by (auto simp: incr16_def)
    have "fold (\<lambda>c lineas. if c = LF then incr16 lineas else lineas) cs (incr16 n)
            = (incr16 n + ?k + 32768) mod 65536 - 32768"
      using r by (rule Cons.IH)
    also have "incr16 n + ?k + 32768 = (n + 1 + 32768) mod 65536 + ?k"
      unfolding i by simp
    also have "((n + 1 + 32768) mod 65536 + ?k) mod 65536 = (n + 1 + 32768 + ?k) mod 65536"
      by (rule mod_add_left_eq)
    finally show ?thesis using True by (simp add: algebra_simps)
  next
    case False
    with Cons show ?thesis by simp
  qed
qed

text \<open>
  C10 as stated, for every freshly initialized store, fails at the bound: with 32767
  measurements stored the pending log has 32768 lines, the 16-bit counter of
  \<^verbatim>\<open>contarLineas\<close> overflows, and the function reports -32768.
\<close>

theorem cabecera_desborda_contraejemplo:
  "contarLineas (anexarMediciones (replicate 32767 (5, m1)) (setup_v2 True (arranque (\<lambda>f. None))))
     ARCHIVO_PENDIENTES = - 32768"
proof -
  let ?s0 = "setup_v2 True (arranque (\<lambda>f. None))"
  let ?rs = "replicate 32767 (5 :: 32 word, m1)"
  have s0: "sdDisponible ?s0" "contenido (sd ?s0) ARCHIVO_PENDIENTES = CABECERA @ [CR, LF]"
    by (simp_all add: setup_v2_def arranque_def crearSiFalta_def println_def)
  have m: "\<forall>(ms, m) \<in> set ?rs. sin_LF m"
    by (simp add: sin_LF_def m1_def)
  from anexarMediciones_contenido[OF s0(1) m] obtain X where
    X: "contenido (sd (anexarMediciones ?rs ?s0)) ARCHIVO_PENDIENTES = (CABECERA @ [CR, LF]) @ X"
       "length (filter (\<lambda>c. c = LF) X) = length ?rs" "sdDisponible (anexarMediciones ?rs ?s0)"
    unfolding s0(2) by blast
  have n: "int (length (filter (\<lambda>c. c = LF) ((CABECERA @ [CR, LF]) @ X))) = 32768"
    using X(2) CABECERA_sin_LF by (auto simp: filter_empty_conv)
  have "fold (\<lambda>c lineas. if c = LF then incr16 lineas else lineas) ((CABECERA @ [CR, LF]) @ X) 0
          = (0 + int (length (filter (\<lambda>c. c = LF) ((CABECERA @ [CR, LF]) @ X))) + 32768) mod 65536 - 32768"
    by (rule cuenta_fold_general) simp_all
  then show ?thesis
    unfolding contarLineas_contenido X(1) n using X(3) by simp
qed

section \<open>The line parser\<close>

lemma takeWhile_hasta: "x \<notin> set a \<Longrightarrow> takeWhile (\<lambda>c. c \<noteq> x) (a @ x # r) = a"
  by (induction a) auto

lemma dropWhile_hasta: "x \<notin> set a \<Longrightarrow> dropWhile (\<lambda>c. c \<noteq> x) (a @ x # r) = x # r"
  by (induction a) auto

lemma takeWhile_todo: "x \<notin> set a \<Longrightarrow> takeWhile (\<lambda>c. c \<noteq> x) a = a"
  by (induction a) auto

lemma dropWhile_todo: "x \<notin> set a \<Longrightarrow> dropWhile (\<lambda>c. c \<noteq> x) a = []"
  by (induction a) auto

lemma strtok_campo:
  assumes "a \<noteq> []" "CHR '';'' \<notin> set a"
  shows "strtok (a @ CHR '';'' # resto) = (Some a, resto)"
proof -
  from assms obtain c cs where a: "a = c # cs" "c \<noteq> CHR '';''" by (cases a) auto
  have d: "dropWhile (\<lambda>c. c = CHR '';'') (a @ CHR '';'' # resto) = a @ CHR '';'' # resto"
    using a by simp
  show ?thesis
    unfolding strtok_def d
    by (simp add: takeWhile_hasta[OF assms(2)] dropWhile_hasta[OF assms(2)] assms(1))
qed

lemma strtok_ultimo:
  assumes "a \<noteq> []" "CHR '';'' \<notin> set a"
  shows "strtok a = (Some a, [])"
proof -
  from assms obtain c cs where a: "a = c # cs" "c \<noteq> CHR '';''" by (cases a) auto
  have d: "dropWhile (\<lambda>c. c = CHR '';'') a = a" using a by simp
  show ?thesis
    unfolding strtok_def d
    by (simp add: takeWhile_todo[OF assms(2)] dropWhile_todo[OF assms(2)] assms(1))
qed

lemma parsearLinea_siete:
  assumes "\<forall>x \<in> set [i, ts, a, b, c, d, e]. x \<noteq> [] \<and> CHR '';'' \<notin> set x"
  shows "parsearLinea (i @ CHR '';'' # ts @ CHR '';'' # a @ CHR '';'' # b @ CHR '';'' # c @ CHR '';'' # d @ CHR '';'' # e)
           = Campos \<lparr>temp = a, cond = b, bat = c, volt = d, cob = e\<rparr>"
  using assms by (simp add: parsearLinea_def strtok_campo strtok_ultimo)

lemma decimal_ejemplos:
  "decimal (Suc 0) = ''1''" "decimal 1 = ''1''" "decimal 2 = ''2''" "decimal 5 = ''5''"
  by (simp_all add: decimal.simps digito_def)

section \<open>The attempts of one drain\<close>

lemma traza_acotada_Nil: "0 \<le> k \<Longrightarrow> traza_acotada k []"
  by (simp add: traza_acotada_def para_en_fallo_def)

lemma traza_acotada_fallo: "1 \<le> k \<Longrightarrow> traza_acotada k [(x, False)]"
  by (simp add: traza_acotada_def para_en_fallo_def)

lemma traza_acotada_exito: "traza_acotada (k - 1) ext \<Longrightarrow> traza_acotada k ((x, True) # ext)"
  by (cases ext) (simp_all add: traza_acotada_def para_en_fallo_def)

lemma reintentar_bucle_traza:
  "intentos \<le> MAX_REINTENTOS \<Longrightarrow>
   \<exists>ext. fst (snd (reintentar_bucle red pendientes intentos enviados tr s)) = tr @ ext
        \<and> traza_acotada (MAX_REINTENTOS - intentos) ext"
proof (induction red pendientes intentos enviados tr s rule: reintentar_bucle.induct)
  case (1 red pendientes intentos enviados tr s)
  let ?r = "reintentar_bucle red pendientes intentos enviados tr s"
  have nil: "traza_acotada (MAX_REINTENTOS - intentos) []"
    using "1.prems" by (intro traza_acotada_Nil) simp
  show ?case
  proof (cases "intentos < MAX_REINTENTOS \<and> intentos < pendientes")
    case False
    then have "fst (snd ?r) = tr @ []" by (subst reintentar_bucle.simps) (simp only: if_False fst_conv snd_conv append_Nil2)
    with nil show ?thesis by blast
  next
    case c: True
    then have k: "intentos + 1 \<le> MAX_REINTENTOS" "0 \<le> MAX_REINTENTOS - intentos"
      "1 \<le> MAX_REINTENTOS - intentos" by simp_all
    show ?thesis
    proof (cases "leerLineaN s ARCHIVO_PENDIENTES 0 BUFFER_SIZE")
      case None
      with c have "fst (snd ?r) = tr @ []" by (subst reintentar_bucle.simps) simp
      with nil show ?thesis by blast
    next
      case (Some l)
      show ?thesis
      proof (cases "parsearLinea l")
        case Cortar
        with c Some have "fst (snd ?r) = tr @ []" by (subst reintentar_bucle.simps) simp
        with nil show ?thesis by blast
      next
        case Corrupta
        from "1.IH"(1)[OF c Some Corrupta k(1)] obtain ext where
          "fst (snd (reintentar_bucle red pendientes (intentos + 1) enviados tr
              (snd (eliminarPrimeraLinea (s\<lparr>bufferLinea := buffer_tras_strtok l\<rparr>) ARCHIVO_PENDIENTES))))
            = tr @ ext" "traza_acotada (MAX_REINTENTOS - (intentos + 1)) ext"
          by blast
        moreover have "traza_acotada (MAX_REINTENTOS - intentos) ext"
          using calculation(2) by (simp add: traza_acotada_def)
        ultimately show ?thesis
          using c Some Corrupta by (subst reintentar_bucle.simps) auto
      next
        case (Campos m)
        show ?thesis
        proof (cases "red (length tr)")
          case False
          with c Some Campos have "fst (snd ?r) = tr @ [(m, False)]"
            by (subst reintentar_bucle.simps) simp
          moreover have "traza_acotada (MAX_REINTENTOS - intentos) [(m, False)]"
            using k(3) by (rule traza_acotada_fallo)
          ultimately show ?thesis by blast
        next
          case True
          from "1.IH"(2)[OF c Some Campos True k(1)] obtain ext where
            e: "fst (snd (reintentar_bucle red pendientes (intentos + 1) (enviados + 1) (tr @ [(m, True)])
              (snd (case leerLineaN s ARCHIVO_PENDIENTES 0 BUFFER_SIZE of
                              None \<Rightarrow> marcarComoEnviado (s\<lparr>bufferLinea := buffer_tras_strtok l\<rparr>)
                                        (buffer_tras_strtok l)
                            | Some l2 \<Rightarrow> marcarComoEnviado (s\<lparr>bufferLinea := l2\<rparr>) l2))))
            = (tr @ [(m, True)]) @ ext" "traza_acotada (MAX_REINTENTOS - (intentos + 1)) ext"
            by blast
          have "traza_acotada (MAX_REINTENTOS - intentos) ((m, True) # ext)"
            using e(2) by (intro traza_acotada_exito) (simp add: algebra_simps)
          moreover have "fst (snd ?r) = tr @ (m, True) # ext"
            using c Some Campos True e(1) by (subst reintentar_bucle.simps) simp
          ultimately show ?thesis by blast
        qed
      qed
    qed
  qed
qed

lemma reintentos_bucle_mod_traza:
  "reintentos \<le> MAX_REINTENTOS \<Longrightarrow>
   \<exists>ext. fst (reintentos_bucle_mod red reintentos tr t) = tr @ ext
        \<and> traza_acotada (MAX_REINTENTOS - reintentos) ext"
proof (induction red reintentos tr t rule: reintentos_bucle_mod.induct)
  case (1 red reintentos tr t)
  let ?r = "reintentos_bucle_mod red reintentos tr t"
  have nil: "traza_acotada (MAX_REINTENTOS - reintentos) []"
    using "1.prems" by (intro traza_acotada_Nil) simp
  show ?case
  proof (cases "reintentos < MAX_REINTENTOS")
    case False
    then have "fst ?r = tr @ []"
      by (subst reintentos_bucle_mod.simps) (simp only: if_False fst_conv append_Nil2)
    with nil show ?thesis by blast
  next
    case c: True
    then have k: "reintentos + 1 \<le> MAX_REINTENTOS" "1 \<le> MAX_REINTENTOS - reintentos" by simp_all
    show ?thesis
    proof (cases "leerPrimeraLinea t ARCHIVO_PENDIENTES")
      case None
      with c have "fst ?r = tr @ []" by (subst reintentos_bucle_mod.simps) simp
      with nil show ?thesis by blast
    next
      case (Some linea)
      show ?thesis
      proof (cases "red (length tr)")
        case False
        with c Some have "fst ?r = tr @ [(linea, False)]"
          by (subst reintentos_bucle_mod.simps) simp
        moreover have "traza_acotada (MAX_REINTENTOS - reintentos) [(linea, False)]"
          using k(2) by (rule traza_acotada_fallo)
        ultimately show ?thesis by blast
      next
        case True
        from "1.IH"[OF c Some True k(1)] obtain ext where
          e: "fst (reintentos_bucle_mod red (reintentos + 1) (tr @ [(linea, True)])
                 (snd (moverPrimeraLineaAEnviados t))) = (tr @ [(linea, True)]) @ ext"
             "traza_acotada (MAX_REINTENTOS - (reintentos + 1)) ext"
          by blast
        have "traza_acotada (MAX_REINTENTOS - reintentos) ((linea, True) # ext)"
          using e(2) by (intro traza_acotada_exito) (simp add: algebra_simps)
        moreover have "fst ?r = tr @ (linea, True) # ext"
          using c Some True e(1) by (subst reintentos_bucle_mod.simps) simp
        ultimately show ?thesis by blast
      qed
    qed
  qed
qed

lemma reintentarEnvios_bucle_traza:
  "intentos \<le> MAX_REINTENTOS \<Longrightarrow>
   \<exists>ext. snd (reintentarEnvios_bucle red intentos enviados linea tr bs) = tr @ ext
        \<and> int (length ext) \<le> MAX_REINTENTOS - intentos"
proof (induction bs arbitrary: intentos enviados linea tr)
  case Nil
  then show ?case by simp
next
  case (Cons c cs)
  show ?case
  proof (cases "intentos < MAX_REINTENTOS \<and> c = LF \<and> indexOf linea ''PENDIENTE'' > 0")
    case True
    then have k: "intentos + 1 \<le> MAX_REINTENTOS" by simp
    from Cons.IH[OF k, of "if red (length tr) then enviados + 1 else enviados" "[]"
        "tr @ [(linea, red (length tr))]"]
    obtain ext where
      e: "snd (reintentarEnvios_bucle red (intentos + 1) (if red (length tr) then enviados + 1 else enviados)
             [] (tr @ [(linea, red (length tr))]) cs) = (tr @ [(linea, red (length tr))]) @ ext"
         "int (length ext) \<le> MAX_REINTENTOS - (intentos + 1)"
      by blast
    have "snd (reintentarEnvios_bucle red intentos enviados linea tr (c # cs))
            = tr @ ((linea, red (length tr)) # ext)"
      using True e(1) by (cases "red (length tr)") simp_all
    moreover have "int (length ((linea, red (length tr)) # ext)) \<le> MAX_REINTENTOS - intentos"
      using e(2) by simp
    ultimately show ?thesis by blast
  next
    case False
    show ?thesis
    proof (cases "intentos < MAX_REINTENTOS")
      case f: False
      with Cons.prems show ?thesis by simp
    next
      case t: True
      show ?thesis
      proof (cases "c = LF")
        case True
        with False t Cons.IH[OF Cons.prems, of enviados "[]" tr] show ?thesis by simp
      next
        case f2: False
        with t Cons.IH[OF Cons.prems, of enviados "linea @ [c]" tr] show ?thesis by simp
      qed
    qed
  qed
qed

text \<open>
  C4, as amended. In each of the three sketches one drain makes at most
  \<open>MAX_REINTENTOS\<close> = 3 transmission attempts. In the two sketches with two logs
  (\<^verbatim>\<open>reintentarPendientes\<close>) no attempt follows a failed one. For the sketch with one
  log (\<^verbatim>\<open>reintentarEnviosPendientes\<close>) only the bound is stated.
\<close>

theorem drenaje_acotado:
  "traza_acotada MAX_REINTENTOS (fst (snd (reintentarPendientes red s)))
   \<and> traza_acotada MAX_REINTENTOS (fst (reintentarPendientes_mod red t))
   \<and> int (length (snd (reintentarEnviosPendientes red disponible t))) \<le> MAX_REINTENTOS"
proof -
  have z: "(0::int) \<le> MAX_REINTENTOS" by (simp add: MAX_REINTENTOS_def)
  have nil: "traza_acotada MAX_REINTENTOS ([] :: ('a \<times> bool) list)" for dummy :: 'a
    using z by (rule traza_acotada_Nil)
  have a: "traza_acotada MAX_REINTENTOS (fst (snd (reintentarPendientes red s)))"
    using reintentar_bucle_traza[OF z, of red "contarLineas s ARCHIVO_PENDIENTES" 0 "[]" s]
      traza_acotada_Nil[OF z]
    by (auto simp: reintentarPendientes_def Let_def)
  have b: "traza_acotada MAX_REINTENTOS (fst (reintentarPendientes_mod red t))"
    using reintentos_bucle_mod_traza[OF z, of red "[]" t] traza_acotada_Nil[OF z]
    by (auto simp: reintentarPendientes_mod_def)
  have c: "int (length (snd (reintentarEnviosPendientes red disponible t))) \<le> MAX_REINTENTOS"
    using reintentarEnvios_bucle_traza[OF z, of red 0 "[]" "[]"] z
    by (auto simp: reintentarEnviosPendientes_def split: option.splits)
  from a b c show ?thesis by simp
qed

text \<open>
  C4 as stated fails for \<^verbatim>\<open>reintentarEnviosPendientes\<close>: its loop has no
  \<^verbatim>\<open>break\<close> on a failed attempt. With two pending lines and a transport that never
  acknowledges, the second line is attempted after the first has failed.
\<close>

theorem sigue_tras_fallo_contraejemplo:
  "snd (reintentarEnviosPendientes (\<lambda>k. False) True datos_dos_pendientes)
     = [(''1;5;a;b;c;d;e;PENDIENTE'' @ [CR], False), (''2;5;a;b;c;d;e;PENDIENTE'' @ [CR], False)]
   \<and> \<not> para_en_fallo (snd (reintentarEnviosPendientes (\<lambda>k. False) True datos_dos_pendientes))"
  by (simp add: reintentarEnviosPendientes_def datos_dos_pendientes_def indexOf_def
        MAX_REINTENTOS_def para_en_fallo_def)


section \<open>The order of the drain\<close>















section \<open>The measurement counter\<close>

lemma mismos_globales_refl [simp]: "mismos_globales s s"
  by (simp add: mismos_globales_def)

lemma mismos_globales_buffer [simp]: "mismos_globales (s\<lparr>bufferLinea := b\<rparr>) s' = mismos_globales s s'"
  by (simp add: mismos_globales_def)

lemma eliminarPrimeraLinea_globales: "mismos_globales s (snd (eliminarPrimeraLinea s f))"
  by (simp add: eliminarPrimeraLinea_def mismos_globales_def Let_def split: option.splits)

lemma marcarComoEnviado_globales: "mismos_globales s (snd (marcarComoEnviado s l))"
  using eliminarPrimeraLinea_globales[of "s\<lparr>sd := anexar ARCHIVO_ENVIADOS (println l) (sd s)\<rparr>" ARCHIVO_PENDIENTES]
  by (simp add: marcarComoEnviado_def mismos_globales_def)

lemma mismos_globales_trans: "mismos_globales a b \<Longrightarrow> mismos_globales b c \<Longrightarrow> mismos_globales a c"
  by (simp add: mismos_globales_def)

lemma reintentar_bucle_globales:
  "mismos_globales s (snd (snd (reintentar_bucle red pendientes intentos enviados tr s)))"
proof (induction red pendientes intentos enviados tr s rule: reintentar_bucle.induct)
  case (1 red pendientes intentos enviados tr s)
  let ?r = "reintentar_bucle red pendientes intentos enviados tr s"
  show ?case
  proof (cases "intentos < MAX_REINTENTOS \<and> intentos < pendientes")
    case False
    then have "?r = (enviados, tr, s)"
      by (subst reintentar_bucle.simps) (simp only: if_False)
    then show ?thesis by simp
  next
    case c: True
    show ?thesis
    proof (cases "leerLineaN s ARCHIVO_PENDIENTES 0 BUFFER_SIZE")
      case None
      with c have "?r = (enviados, tr, s)" by (subst reintentar_bucle.simps) simp
      then show ?thesis by simp
    next
      case (Some l)
      show ?thesis
      proof (cases "parsearLinea l")
        case Cortar
        with c Some have "?r = (enviados, tr, s\<lparr>bufferLinea := buffer_tras_strtok l\<rparr>)"
          by (subst reintentar_bucle.simps) simp
        then show ?thesis by (simp add: mismos_globales_def)
      next
        case Corrupta
        let ?s' = "snd (eliminarPrimeraLinea (s\<lparr>bufferLinea := buffer_tras_strtok l\<rparr>) ARCHIVO_PENDIENTES)"
        have "mismos_globales s ?s'"
          using eliminarPrimeraLinea_globales[of "s\<lparr>bufferLinea := buffer_tras_strtok l\<rparr>"] by simp
        moreover have "?r = reintentar_bucle red pendientes (intentos + 1) enviados tr ?s'"
          using c Some Corrupta by (subst reintentar_bucle.simps) simp
        ultimately show ?thesis
          using "1.IH"(1)[OF c Some Corrupta] by (auto intro: mismos_globales_trans)
      next
        case (Campos m)
        show ?thesis
        proof (cases "red (length tr)")
          case False
          with c Some Campos have "?r = (enviados, tr @ [(m, False)], s\<lparr>bufferLinea := buffer_tras_strtok l\<rparr>)"
            by (subst reintentar_bucle.simps) simp
          then show ?thesis by (simp add: mismos_globales_def)
        next
          case True
          let ?s' = "snd (marcarComoEnviado (s\<lparr>bufferLinea := l\<rparr>) l)"
          have "mismos_globales s ?s'"
            using marcarComoEnviado_globales[of "s\<lparr>bufferLinea := l\<rparr>"] by simp
          moreover have "?r = reintentar_bucle red pendientes (intentos + 1) (enviados + 1) (tr @ [(m, True)]) ?s'"
            using c Some Campos True by (subst reintentar_bucle.simps) simp
          ultimately show ?thesis
            using "1.IH"(2)[OF c Some Campos True] Some by (auto intro: mismos_globales_trans)
        qed
      qed
    qed
  qed
qed

lemma reintentarPendientes_globales:
  "mismos_globales s (snd (snd (reintentarPendientes red s)))"
  using reintentar_bucle_globales by (simp add: reintentarPendientes_def Let_def)

lemma leerBateria_globales: "mismos_globales s (leerBateria v s)"
  by (simp add: leerBateria_def mismos_globales_def Let_def split: option.splits)

lemma fold_leerBateria_globales: "mismos_globales s (fold leerBateria vs s)"
proof (induction vs arbitrary: s)
  case Nil
  show ?case by simp
next
  case (Cons v vs)
  from leerBateria_globales[of s v] Cons[of "leerBateria v s"] show ?case
    by (auto intro: mismos_globales_trans)
qed

lemma guardarMedicion_globales: "mismos_globales s (snd (guardarMedicion ms m s))"
  by (simp add: guardarMedicion_def mismos_globales_def)

lemma paso4_globales: "mismos_globales s (paso4 enviado guardado s)"
  using marcarComoEnviado_globales[of s "bufferLinea s"]
    marcarComoEnviado_globales[of "s\<lparr>bufferLinea := l\<rparr>" l for l]
  by (auto simp: paso4_def Let_def split: option.splits)

lemma loop_contador:
  assumes "loop e s = Some s'"
  shows "contadorMediciones s' = contadorMediciones s + 1"
proof -
  obtain n tr s1 where r: "reintentarPendientes (acuses e) s = (n, tr, s1)"
    by (cases "reintentarPendientes (acuses e) s") auto
  let ?s2 = "fold leerBateria (baterias e) s1"
  let ?s3 = "?s2\<lparr>contadorMediciones := contadorMediciones ?s2 + 1\<rparr>"
  let ?s4 = "snd (guardarMedicion (reloj e) (buffers e) ?s3)"
  have a: "contadorMediciones s1 = contadorMediciones s"
    using reintentarPendientes_globales[of s "acuses e"] r by (simp add: mismos_globales_def)
  have b: "contadorMediciones ?s2 = contadorMediciones s1"
    using fold_leerBateria_globales[of s1 "baterias e"] by (simp add: mismos_globales_def)
  have c: "contadorMediciones ?s4 = contadorMediciones ?s3"
    using guardarMedicion_globales[of ?s3] by (simp add: mismos_globales_def)
  have d: "contadorMediciones (paso4 x y ?s4) = contadorMediciones ?s4" for x y
    using paso4_globales[of ?s4 x y] by (simp add: mismos_globales_def)
  from assms r have "s' = paso4 (acuses e (length tr)) (fst (guardarMedicion (reloj e) (buffers e) ?s3)) ?s4"
    by (auto simp: loop_def Let_def split: if_splits prod.splits)
  with a b c d show ?thesis by simp
qed

lemma ciclos_contador:
  "ciclos es s = Some s' \<Longrightarrow> contadorMediciones s' = contadorMediciones s + word_of_nat (length es)"
proof (induction es arbitrary: s)
  case Nil
  then show ?case by simp
next
  case (Cons e es)
  then obtain s1 where s1: "loop e s = Some s1" "ciclos es s1 = Some s'"
    by (auto split: option.splits)
  from loop_contador[OF s1(1)] Cons.IH[OF s1(2)] show ?case by simp
qed

text \<open>
  C6, as amended. \<^verbatim>\<open>contadorMediciones\<close> is a variable in memory: every power-on starts
  it at 0, whatever the card holds, and nothing stores it on the card or derives it from the
  logs. Within one boot each completed cycle adds one to it (modulo \<open>2 ^ 32\<close>), so the
  counter after a run of at least one and fewer than \<open>2 ^ 32\<close> cycles differs from the
  counter before the run: identifiers are distinct within a boot.
\<close>

theorem contador_en_un_arranque:
  "contadorMediciones (setup_v2 sd_begin (arranque t)) = 0
   \<and> (ciclos es s = Some s' \<longrightarrow>
        contadorMediciones s' = contadorMediciones s + word_of_nat (length es)
        \<and> (0 < length es \<and> length es < 2 ^ 32 \<longrightarrow> contadorMediciones s' \<noteq> contadorMediciones s))"
proof -
  have a: "contadorMediciones (setup_v2 sd_begin (arranque t)) = 0"
    by (simp add: setup_v2_def arranque_def)
  have b: "(word_of_nat (length es) :: 32 word) \<noteq> 0" if "0 < length es" "length es < 2 ^ 32"
  proof
    assume "(word_of_nat (length es) :: 32 word) = 0"
    then have "unat (word_of_nat (length es) :: 32 word) = 0" by simp
    moreover have "unat (word_of_nat (length es) :: 32 word) = length es"
      using that(2) by (simp add: unat_of_nat)
    ultimately show False using that(1) by simp
  qed
  from a b ciclos_contador[of es s s'] show ?thesis by auto
qed

lemmas evaluar_v2 = loop_def reintentarPendientes_def contarLineas_def incr16_def
  reintentar_bucle.simps leerLineaN_def cadena_def parsearLinea_def strtok_def buffer_tras_strtok_def
  guardarMedicion_def lineaCSV_def paso4_def leerBateria_def setup_v2_def arranque_def
  crearSiFalta_def CABECERA_def println_def marcarComoEnviado_def eliminarPrimeraLinea_def
  MAX_REINTENTOS_def BUFFER_SIZE_def UMBRAL_BATERIA_BAJA_def Let_def decimal_ejemplos

lemma loop_Some: "contador_bateria_baja s \<le> UMBRAL_BATERIA_BAJA \<Longrightarrow> \<exists>s'. loop e s = Some s'"
  by (simp add: loop_def Let_def split: prod.splits)

theorem contador_en_un_arranque_witness:
  "contadorMediciones (setup_v2 True (arranque (\<lambda>f. None))) = 0
   \<and> ciclos [entrada_sin_red] (setup_v2 True (arranque (\<lambda>f. None))) = Some tras_primer_arranque
   \<and> contadorMediciones tras_primer_arranque = 1"
proof -
  let ?s = "setup_v2 True (arranque (\<lambda>f. None))"
  have "contador_bateria_baja ?s \<le> UMBRAL_BATERIA_BAJA"
    by (simp add: setup_v2_def arranque_def UMBRAL_BATERIA_BAJA_def)
  from loop_Some[OF this, of entrada_sin_red] have c: "ciclos [entrada_sin_red] ?s = Some tras_primer_arranque"
    by (auto simp: tras_primer_arranque_def)
  from contador_en_un_arranque [of True "\<lambda>f. None" "[entrada_sin_red]" ?s tras_primer_arranque] c
  show ?thesis
    by (simp add: setup_v2_def arranque_def)
qed

text \<open>
  C6 as stated fails: after a reset with the same card, the first measurement of the second
  boot gets the identifier 1 that the first measurement of the first boot already has.
\<close>

theorem reinicio_repite_identificador:
  "contadorMediciones tras_primer_arranque = 1
   \<and> contadorMediciones tras_segundo_arranque = 1
   \<and> identificadores (contenido (sd tras_segundo_arranque) ARCHIVO_PENDIENTES) = [''ID'', ''1'', ''1'']"
  by (simp add: tras_segundo_arranque_def tras_primer_arranque_def entrada_sin_red_def m1_def
        evaluar_v2 identificadores_def lineas_def)



section \<open>Files as sequences of lines\<close>

lemma lineas_desde_linea:
  "LF \<notin> set l \<Longrightarrow> lineas_desde actual (l @ LF # resto) = (actual @ l) # lineas_desde [] resto"
  by (induction l arbitrary: actual) auto

lemma lineas_desde_append:
  "a \<noteq> [] \<Longrightarrow> last a = LF \<Longrightarrow>
   lineas_desde actual (a @ b) = lineas_desde actual a @ lineas_desde [] b"
proof (induction a arbitrary: actual)
  case Nil
  then show ?case by simp
next
  case (Cons c cs)
  show ?case
  proof (cases "cs = []")
    case True
    with Cons.prems show ?thesis by simp
  next
    case False
    with Cons.prems have "last cs = LF" by simp
    from Cons.IH[OF False this] show ?thesis by simp
  qed
qed

lemma lineas_append: "completo a \<Longrightarrow> lineas (a @ b) = lineas a @ lineas b"
  unfolding completo_def lineas_def
  by (cases "a = []") (simp_all add: lineas_desde_append)

lemma lineas_println: "LF \<notin> set l \<Longrightarrow> lineas (println l) = [l @ [CR]]"
  using lineas_desde_linea[of "l @ [CR]" "[]" "[]"] by (simp add: lineas_def println_def)

lemma lineas_linea: "LF \<notin> set l \<Longrightarrow> lineas (l @ LF # resto) = l # lineas resto"
  using lineas_desde_linea[of l "[]" resto] by (simp add: lineas_def)

lemma completo_append: "completo a \<Longrightarrow> completo b \<Longrightarrow> completo (a @ b)"
  by (cases "b = []") (auto simp: completo_def)

lemma completo_println: "completo (println l)"
  by (simp add: completo_def println_def)

lemma completo_Nil: "completo []"
  by (simp add: completo_def)

lemma registro_CR: "registro (l @ [CR]) = registro l"
  by (simp add: registro_def)

lemma copiarSinPrimera_True: "copiarSinPrimera True bs = bs"
  by (induction bs) auto

lemma copiarSinPrimera_linea:
  "LF \<notin> set l \<Longrightarrow> copiarSinPrimera False (l @ LF # resto) = resto"
  by (induction l) (auto simp: copiarSinPrimera_True)

lemma copiarSinPrimera_sufijo: "\<exists>pre. bs = pre @ copiarSinPrimera False bs"
proof (induction bs)
  case Nil
  show ?case by simp
next
  case (Cons c cs)
  show ?case
  proof (cases "c = LF")
    case True
    then show ?thesis by (intro exI[of _ "[c]"]) (simp add: copiarSinPrimera_True)
  next
    case False
    from Cons obtain pre where "cs = pre @ copiarSinPrimera False cs" by blast
    then have "c # cs = (c # pre) @ copiarSinPrimera False cs" by simp
    with False show ?thesis by (metis copiarSinPrimera.simps(2))
  qed
qed

lemma completo_copiarSinPrimera: "completo bs \<Longrightarrow> completo (copiarSinPrimera False bs)"
proof -
  assume c: "completo bs"
  obtain pre where p: "bs = pre @ copiarSinPrimera False bs"
    using copiarSinPrimera_sufijo by blast
  show ?thesis
  proof (cases "copiarSinPrimera False bs = []")
    case True
    then show ?thesis by (simp add: completo_def)
  next
    case False
    then have "last bs = last (copiarSinPrimera False bs)"
      using p by (metis last_appendR)
    with c False p show ?thesis by (auto simp: completo_def)
  qed
qed

lemma lineas_desde_copiarSinPrimera:
  "lineas_desde [] (copiarSinPrimera False bs) = tl (lineas_desde actual bs)"
  by (induction bs arbitrary: actual) (auto simp: copiarSinPrimera_True)

lemma lineas_copiarSinPrimera: "lineas (copiarSinPrimera False bs) = tl (lineas bs)"
  by (simp add: lineas_def lineas_desde_copiarSinPrimera[of bs "[]"])

lemma lineas_desde_sin_LF:
  "LF \<notin> set actual \<Longrightarrow> l \<in> set (lineas_desde actual bs) \<Longrightarrow> LF \<notin> set l"
proof (induction bs arbitrary: actual)
  case Nil
  then show ?case by simp
next
  case (Cons c cs)
  show ?case
  proof (cases "c = LF")
    case True
    with Cons.prems have "l = actual \<or> l \<in> set (lineas_desde [] cs)" by simp
    then show ?thesis using Cons.prems(1) Cons.IH[of "[]"] by auto
  next
    case False
    with Cons.prems have "l \<in> set (lineas_desde (actual @ [c]) cs)" by simp
    moreover have "LF \<notin> set (actual @ [c])" using False Cons.prems(1) by auto
    ultimately show ?thesis using Cons.IH by blast
  qed
qed

lemma lineas_sin_LF: "l \<in> set (lineas bs) \<Longrightarrow> LF \<notin> set l"
  using lineas_desde_sin_LF[of "[]" l bs] by (simp add: lineas_def)

lemma length_lineas_desde: "length (lineas_desde actual bs) = length (filter (\<lambda>c. c = LF) bs)"
  by (induction bs arbitrary: actual) auto

lemma length_lineas: "length (lineas bs) = length (filter (\<lambda>c. c = LF) bs)"
  by (simp add: lineas_def length_lineas_desde)

section \<open>Promoting a record twice\<close>

lemma marcarComoEnviado_enviados:
  "sdDisponible s \<Longrightarrow>
   contenido (sd (snd (marcarComoEnviado s linea))) ARCHIVO_ENVIADOS
     = contenido (sd s) ARCHIVO_ENVIADOS @ println linea"
  by (simp add: marcarComoEnviado_def eliminarPrimeraLinea_def Let_def split: option.splits)

text \<open>
  C7, as amended. \<^verbatim>\<open>marcarComoEnviado\<close> does not look at what the sent log holds: on a
  mounted card every call appends the line, so a promotion that is repeated after an
  interrupted one adds one more copy of the record to the sent log.
\<close>

theorem promocion_repetida_duplica:
  assumes "sdDisponible s" and "LF \<notin> set linea" and "completo (contenido (sd s) ARCHIVO_ENVIADOS)"
  shows "copias (registro linea) ARCHIVO_ENVIADOS (sd (snd (marcarComoEnviado s linea)))
           = copias (registro linea) ARCHIVO_ENVIADOS (sd s) + 1"
  using assms
  by (simp add: copias_def marcarComoEnviado_enviados lineas_append lineas_println registro_CR)

lemmas evaluar_lineas = lineas_def registro_def copias_def

theorem promocion_repetida_duplica_witness:
  "copias r0 ARCHIVO_ENVIADOS
     (sd (snd (marcarComoEnviado (setup_v2 True (arranque tarjeta_interrumpida)) (r0 @ [CR])))) = 2"
proof -
  let ?s = "setup_v2 True (arranque tarjeta_interrumpida)"
  have a: "sdDisponible ?s" by (simp add: setup_v2_def)
  have b: "LF \<notin> set (r0 @ [CR])" by (simp add: r0_def)
  have c: "contenido (sd ?s) ARCHIVO_ENVIADOS = println CABECERA @ println (r0 @ [CR])"
    by (simp add: setup_v2_def arranque_def crearSiFalta_def tarjeta_interrumpida_def
          promocionInterrumpida_def pasosPromocion_def)
  have d: "completo (contenido (sd ?s) ARCHIVO_ENVIADOS)"
    unfolding c by (intro completo_append completo_println)
  have e: "copias r0 ARCHIVO_ENVIADOS (sd ?s) = 1"
    by (simp add: copias_def c println_def CABECERA_def r0_def lineas_def registro_def)
  from promocion_repetida_duplica [OF a b d] e show ?thesis
    by (simp add: registro_CR) (simp add: registro_def r0_def)
qed

text \<open>
  C7 as stated fails: power is lost after the record has been appended to the sent log and
  before it is removed from the pending log; the record is then in both logs, once in each.
  After the next boot the drain transmits it again and, once acknowledged, appends it again:
  the sent log holds two copies.
\<close>

theorem promocion_repetida_duplica_contraejemplo:
  "copias r0 ARCHIVO_PENDIENTES tarjeta_interrumpida = 1
   \<and> copias r0 ARCHIVO_ENVIADOS tarjeta_interrumpida = 1
   \<and> copias r0 ARCHIVO_ENVIADOS (sd tras_repetir_drenaje) = 2"
  by (simp add: tras_repetir_drenaje_def tarjeta_interrumpida_def promocionInterrumpida_def
        pasosPromocion_def r0_def evaluar_v2 evaluar_lineas)

section \<open>The immediate send\<close>

lemmas evaluar_mod = reintentarPendientes_mod_def registrar_def println_def
  contarLineas_mod_def incr16_def reintentos_bucle_mod.simps MAX_REINTENTOS_def
  leerPrimeraLinea_def moverPrimeraLineaAEnviados_def guardarEnSD_def loop_mod_def
  UMBRAL_BATERIA_BAJA_def Let_def

text \<open>
  C8 at its failing input. The pending log holds the header, one record of backlog and the
  record just stored; its line count is 3. The transmission of the new record is
  acknowledged. The end of \<^verbatim>\<open>loop\<close> then appends the new record to the sent log and
  \<^verbatim>\<open>eliminarPrimeraLinea\<close> removes the first line of the pending log, the header: the
  new record is in both logs and the backlog is still pending. With the new record alone in
  the pending log the count is 1 and nothing is promoted. The modular sketch consults no
  count: with backlog left after the drain (two pending lines), an acknowledged immediate
  send moves the head line, not the record that was sent.
\<close>

theorem envio_inmediato_con_atraso:
  "contenido (sd con_atraso) ARCHIVO_PENDIENTES
     = println CABECERA @ println ''1;5;25.1;100.0;80;3900;20'' @ println ''2;6;25.1;100.0;80;3900;20''
   \<and> contarLineas con_atraso ARCHIVO_PENDIENTES = 3
   \<and> contenido (sd (paso4 True True con_atraso)) ARCHIVO_ENVIADOS
       = println CABECERA @ println (''2;6;25.1;100.0;80;3900;20'' @ [CR])
   \<and> contenido (sd (paso4 True True con_atraso)) ARCHIVO_PENDIENTES
       = println ''1;5;25.1;100.0;80;3900;20'' @ println ''2;6;25.1;100.0;80;3900;20''
   \<and> contarLineas solo_el_nuevo ARCHIVO_PENDIENTES = 1
   \<and> paso4 True True solo_el_nuevo = solo_el_nuevo
   \<and> contarLineas_mod antes_del_envio_mod ARCHIVO_PENDIENTES = 2
   \<and> loop_mod (\<lambda>k. True) 0 ''5;e''
        ((\<lambda>f. None)(ARCHIVO_PENDIENTES \<mapsto> registrar [''1;a'', ''2;b'', ''3;c'', ''4;d'']))
       = Some (snd (moverPrimeraLineaAEnviados antes_del_envio_mod))
   \<and> contenido (snd (moverPrimeraLineaAEnviados antes_del_envio_mod)) ARCHIVO_ENVIADOS
       = registrar [''1;a'', ''2;b'', ''3;c'', ''4;d'']
   \<and> contenido (snd (moverPrimeraLineaAEnviados antes_del_envio_mod)) ARCHIVO_PENDIENTES
       = registrar [''5;e'']"
proof -
  have a: "contenido (sd con_atraso) ARCHIVO_PENDIENTES
       = println CABECERA @ println ''1;5;25.1;100.0;80;3900;20'' @ println ''2;6;25.1;100.0;80;3900;20''
     \<and> contarLineas con_atraso ARCHIVO_PENDIENTES = 3
     \<and> contenido (sd (paso4 True True con_atraso)) ARCHIVO_ENVIADOS
         = println CABECERA @ println (''2;6;25.1;100.0;80;3900;20'' @ [CR])
     \<and> contenido (sd (paso4 True True con_atraso)) ARCHIVO_PENDIENTES
         = println ''1;5;25.1;100.0;80;3900;20'' @ println ''2;6;25.1;100.0;80;3900;20''
     \<and> contarLineas solo_el_nuevo ARCHIVO_PENDIENTES = 1
     \<and> paso4 True True solo_el_nuevo = solo_el_nuevo"
    by (simp add: con_atraso_def solo_el_nuevo_def anexarMediciones_def m1_def evaluar_v2
          decimal.simps digito_def)
  have b: "contarLineas_mod antes_del_envio_mod ARCHIVO_PENDIENTES = 2
     \<and> loop_mod (\<lambda>k. True) 0 ''5;e''
          ((\<lambda>f. None)(ARCHIVO_PENDIENTES \<mapsto> registrar [''1;a'', ''2;b'', ''3;c'', ''4;d'']))
         = Some (snd (moverPrimeraLineaAEnviados antes_del_envio_mod))
     \<and> contenido (snd (moverPrimeraLineaAEnviados antes_del_envio_mod)) ARCHIVO_ENVIADOS
         = registrar [''1;a'', ''2;b'', ''3;c'', ''4;d'']
     \<and> contenido (snd (moverPrimeraLineaAEnviados antes_del_envio_mod)) ARCHIVO_PENDIENTES
         = registrar [''5;e'']"
    by (simp add: antes_del_envio_mod_def evaluar_mod)
  from a b show ?thesis by simp
qed

section \<open>A malformed line in the pending log\<close>

text \<open>
  C9 at its failing input. A line with a single field at the head of the pending log makes
  the second \<^verbatim>\<open>strtok\<close> return no token, and the drain leaves its loop at once: no
  attempt is made, the card is unchanged, the malformed line stays at the head and the
  well-formed record behind it is not transmitted, although the transport would acknowledge.
  For comparison, a malformed line with three fields is deleted and the record behind it
  is transmitted and promoted.
\<close>

theorem linea_de_un_campo_bloquea:
  "fst (snd (reintentarPendientes (\<lambda>k. True) cola_bloqueada)) = []
   \<and> sd (snd (snd (reintentarPendientes (\<lambda>k. True) cola_bloqueada))) = sd cola_bloqueada
   \<and> fst (snd (reintentarPendientes (\<lambda>k. True) cola_con_corrupta))
       = [(\<lparr>temp = ''a'', cond = ''b'', bat = ''c'', volt = ''d'', cob = ''e'' @ [CR]\<rparr>, True)]
   \<and> contenido (sd (snd (snd (reintentarPendientes (\<lambda>k. True) cola_con_corrupta)))) ARCHIVO_PENDIENTES = []
   \<and> contenido (sd (snd (snd (reintentarPendientes (\<lambda>k. True) cola_con_corrupta)))) ARCHIVO_ENVIADOS
       = println (r0 @ [CR])"
  by (simp add: cola_bloqueada_def cola_con_corrupta_def r0_def evaluar_v2)


section \<open>Power loss inside a promotion\<close>

text \<open>
  The eight steps of \<open>pasosPromocion\<close>, run to the end, are \<^verbatim>\<open>marcarComoEnviado\<close>;
  a power loss after \<open>k\<close> of them leaves the card \<open>promocionInterrumpida k\<close>.
\<close>

lemma promocion_completa:
  assumes "sdDisponible s" "sd s ARCHIVO_PENDIENTES \<noteq> None"
  shows "sd (snd (marcarComoEnviado s linea)) = promocionInterrumpida 8 linea (sd s)"
  using assms
  by (auto simp: marcarComoEnviado_def eliminarPrimeraLinea_def promocionInterrumpida_def
        pasosPromocion_def Let_def fun_eq_iff contenido_def)


end
